theory Spec2Isabelle
  imports Complex_Main "HOL-Library.Sublist" "HOL-Library.AList"
begin

section \<open>Navigation\<close>

text \<open>
  The shell script keeps its navigation targets in the constant \<open>NAV_ITEMS\<close> and turns a
  logical path into a URL with \<open>resolveHref\<close>. The site root is computed once by the
  browser (\<open>new URL('..', import.meta.url).href\<close>); here it is a parameter.
\<close>

record nav_item =
  nav_id :: string
  nav_label :: string
  nav_href :: string

definition NAV_ITEMS :: "nav_item list" where
  "NAV_ITEMS =
     [\<lparr>nav_id = ''home'', nav_label = ''Home'', nav_href = ''/''\<rparr>,
      \<lparr>nav_id = ''example-tool'', nav_label = ''Example Tool'', nav_href = ''/example-tool/''\<rparr>]"

text \<open>\<open>href.replace(/^\//, '')\<close>: a slash at position 0 is removed, once.\<close>

fun replace_leading_slash :: "string \<Rightarrow> string" where
  "replace_leading_slash [] = []"
| "replace_leading_slash (c # cs) = (if c = CHR ''/'' then cs else c # cs)"

definition resolveHref :: "string \<Rightarrow> string \<Rightarrow> string" where
  "resolveHref site_root h =
     (if h = ''/'' then site_root else site_root @ replace_leading_slash h)"

text \<open>
  \<open>navigateTo\<close> assigns \<open>window.location.href\<close>; the model returns the assigned URL, or
  \<open>None\<close> when no item has the id and the function returns early.
\<close>

definition navigateTo :: "string \<Rightarrow> string \<Rightarrow> string option" where
  "navigateTo site_root i =
     (case find (\<lambda>n. nav_id n = i) NAV_ITEMS of
        None \<Rightarrow> None
      | Some item \<Rightarrow> Some (resolveHref site_root (nav_href item)))"

section \<open>Keyboard shortcuts\<close>

datatype action = NavigateTo string | ToggleShortcutsModal

record shortcut =
  keys :: string
  label :: string
  action :: action

definition SHORTCUTS :: "shortcut list" where
  "SHORTCUTS =
     [\<lparr>keys = ''g h'', label = ''Go to Home'', action = NavigateTo ''home''\<rparr>,
      \<lparr>keys = ''g e'', label = ''Go to Example Tool'', action = NavigateTo ''example-tool''\<rparr>,
      \<lparr>keys = ''?'', label = ''Show keyboard shortcuts'', action = ToggleShortcutsModal\<rparr>]"

text \<open>
  Key names and tag names are modelled as ASCII strings; \<open>toLowerCase\<close> maps the letters
  \<open>A\<close> to \<open>Z\<close> to \<open>a\<close> to \<open>z\<close> and leaves every other character alone.
\<close>

definition lower_char :: "char \<Rightarrow> char" where
  "lower_char c =
     (case map_of (zip ''ABCDEFGHIJKLMNOPQRSTUVWXYZ'' ''abcdefghijklmnopqrstuvwxyz'') c of
        None \<Rightarrow> c
      | Some l \<Rightarrow> l)"

definition toLowerCase :: "string \<Rightarrow> string" where
  "toLowerCase s = map lower_char s"

text \<open>
  The part of a DOM \<open>KeyboardEvent\<close> and of \<open>document.activeElement\<close> that a keydown
  listener can see. \<open>activeElement\<close> is \<open>None\<close> when the document has no focused element.
\<close>

record keyboard_event =
  key :: string
  ctrlKey :: bool
  metaKey :: bool
  altKey :: bool
  shiftKey :: bool

record element =
  tagName :: string
  isContentEditable :: bool

definition isInputFocused :: "element option \<Rightarrow> bool" where
  "isInputFocused activeElement =
     (case activeElement of
        None \<Rightarrow> False
      | Some el \<Rightarrow>
          (let tag = toLowerCase (tagName el) in
           if tag = ''input'' \<or> tag = ''textarea'' \<or> tag = ''select'' then True
           else if isContentEditable el then True
           else False))"

text \<open>
  The module variables \<open>pendingKey\<close> and \<open>pendingTimer\<close> (both \<open>null\<close> at start), together
  with the part of the event loop the handler talks to: a millisecond clock, the timeouts
  that are scheduled (handle and due time) and the next handle \<open>setTimeout\<close> will return.
  Every timeout this script schedules runs the same callback, \<open>pendingKey = null\<close>.
\<close>

record matcher =
  pendingKey :: "string option"
  pendingTimer :: "nat option"
  timers :: "(nat \<times> nat) list"
  nextHandle :: nat
  clock :: nat

definition initial :: matcher where
  "initial = \<lparr>pendingKey = None, pendingTimer = None, timers = [], nextHandle = 1, clock = 0\<rparr>"

definition clearTimeout :: "nat option \<Rightarrow> matcher \<Rightarrow> matcher" where
  "clearTimeout handle st =
     (case handle of
        None \<Rightarrow> st
      | Some h \<Rightarrow> st\<lparr>timers := filter (\<lambda>t. fst t \<noteq> h) (timers st)\<rparr>)"

definition setTimeout :: "nat \<Rightarrow> matcher \<Rightarrow> nat \<times> matcher" where
  "setTimeout delay st =
     (nextHandle st,
      st\<lparr>timers := timers st @ [(nextHandle st, clock st + delay)],
         nextHandle := Suc (nextHandle st)\<rparr>)"

text \<open>What one run of the keydown listener did.\<close>

record keydown_result =
  after :: matcher
  dispatched :: "action list"
  defaultPrevented :: bool

definition unhandled :: "matcher \<Rightarrow> keydown_result" where
  "unhandled st = \<lparr>after = st, dispatched = [], defaultPrevented = False\<rparr>"

definition run_shortcut :: "matcher \<Rightarrow> shortcut \<Rightarrow> keydown_result" where
  "run_shortcut st s = \<lparr>after = st, dispatched = [action s], defaultPrevented = True\<rparr>"

text \<open>
  The block \<open>if (pendingKey) { ... }\<close>: a string is truthy when it is not empty. The block
  clears the timeout and the pending key, and yields the shortcut found for the combo.
\<close>

definition pending_block :: "matcher \<Rightarrow> string \<Rightarrow> matcher \<times> shortcut option" where
  "pending_block st k =
     (case pendingKey st of
        None \<Rightarrow> (st, None)
      | Some p \<Rightarrow>
          if p = [] then (st, None)
          else
            (let combo = p @ '' '' @ k;
                 st1 = (clearTimeout (pendingTimer st) st)\<lparr>pendingKey := None\<rparr>
             in (st1, find (\<lambda>s. keys s = combo) SHORTCUTS)))"

text \<open>The rest of the listener, from \<open>SHORTCUTS.find(s => s.keys === key)\<close> on.\<close>

definition single_block :: "matcher \<Rightarrow> string \<Rightarrow> keydown_result" where
  "single_block st k =
     (case find (\<lambda>s. keys s = k) SHORTCUTS of
        Some single \<Rightarrow> run_shortcut st single
      | None \<Rightarrow>
          (let couldBePrefix = list_ex (\<lambda>s. prefix (k @ '' '') (keys s)) SHORTCUTS in
           if couldBePrefix then
             (let (h, st1) = setTimeout 800 (st\<lparr>pendingKey := Some k\<rparr>)
              in unhandled (st1\<lparr>pendingTimer := Some h\<rparr>))
           else unhandled st))"

definition keydown :: "matcher \<Rightarrow> keyboard_event \<Rightarrow> element option \<Rightarrow> keydown_result" where
  "keydown st e activeElement =
     (if isInputFocused activeElement then unhandled st
      else if ctrlKey e \<or> metaKey e \<or> altKey e then unhandled st
      else
        (let k = toLowerCase (key e) in
         case pending_block st k of
           (st1, Some s) \<Rightarrow> run_shortcut st1 s
         | (st1, None) \<Rightarrow> single_block st1 k))"

text \<open>
  Time passing between two events: the clock advances, and the event loop runs the
  callback of every timeout that is due before it delivers a later event.
\<close>

definition elapse :: "nat \<Rightarrow> matcher \<Rightarrow> matcher" where
  "elapse d st =
     (let t = clock st + d;
          due = filter (\<lambda>x. snd x \<le> t) (timers st)
      in st\<lparr>clock := t,
            timers := filter (\<lambda>x. \<not> snd x \<le> t) (timers st),
            pendingKey := (if due = [] then pendingKey st else None)\<rparr>)"

datatype input = KeyDown keyboard_event "element option" | Elapse nat

fun step :: "matcher \<times> action list \<Rightarrow> input \<Rightarrow> matcher \<times> action list" where
  "step (st, acts) (KeyDown e a) =
     (let r = keydown st e a in (after r, acts @ dispatched r))"
| "step (st, acts) (Elapse d) = (elapse d st, acts)"

definition run :: "matcher \<Rightarrow> input list \<Rightarrow> matcher \<times> action list" where
  "run st ins = foldl step (st, []) ins"

section \<open>Accessibility preferences\<close>

text \<open>
  Values that \<open>JSON.parse\<close> can return. A number is the value of the double it was parsed
  to; \<open>JSON.parse\<close> yields no \<open>NaN\<close>, and an object keeps its properties in order.
\<close>

datatype js_error = SyntaxError | SecurityError | TypeError

datatype js_number = Finite rat | PosInfinity | NegInfinity

datatype json =
    JNull
  | JBool bool
  | JNum js_number
  | JStr string
  | JArr "json list"
  | JObj "(string \<times> json) list"

text \<open>
  The functions of the JavaScript runtime that the preference code calls and that are no
  part of the script: the JSON codec (\<open>JSON_parse\<close> is \<open>None\<close> where \<open>JSON.parse\<close>
  throws a \<open>SyntaxError\<close>) and the formatting of a number as a string.
\<close>

record js_runtime =
  JSON_parse :: "string \<Rightarrow> json option"
  JSON_stringify :: "json \<Rightarrow> string"
  NumberToString :: "js_number \<Rightarrow> string"

text \<open>
  A function that mutates the page either returns or throws; both ways it leaves a state.
\<close>

datatype 'a completion = Returns (state_of: 'a) | Throws js_error (state_of: 'a)

text \<open>
  The string conversion that \<open>setAttribute\<close> applies to its value, on parsed values. No
  parsed value is callable. An array is converted by \<open>join\<close>: its elements in order, \<open>null\<close>
  as the empty string, with commas between. An object that has a property of its own
  named \<open>toString\<close> has no usable conversion method (the inherited \<open>valueOf\<close> returns the
  object), so the conversion throws a \<open>TypeError\<close>; any other object is converted by
  \<open>Object.prototype.toString\<close>.
\<close>

fun join_comma :: "(js_error + string) list \<Rightarrow> js_error + string" where
  "join_comma [] = Inr []"
| "join_comma [x] = x"
| "join_comma (x # y # ys) =
     (case x of
        Inl e \<Rightarrow> Inl e
      | Inr s \<Rightarrow>
          (case join_comma (y # ys) of Inl e \<Rightarrow> Inl e | Inr t \<Rightarrow> Inr (s @ '','' @ t)))"

fun ToString :: "js_runtime \<Rightarrow> json \<Rightarrow> js_error + string" where
  "ToString rt JNull = Inr ''null''"
| "ToString rt (JBool b) = Inr (if b then ''true'' else ''false'')"
| "ToString rt (JNum n) = Inr (NumberToString rt n)"
| "ToString rt (JStr s) = Inr s"
| "ToString rt (JArr xs) =
     join_comma (map (\<lambda>x. if x = JNull then Inr [] else ToString rt x) xs)"
| "ToString rt (JObj fs) =
     (case map_of fs ''toString'' of
        None \<Rightarrow> Inr ''[object Object]''
      | Some m \<Rightarrow> Inl TypeError)"

text \<open>
  \<open>localStorage\<close>: either the browser refuses every access (a \<open>SecurityError\<close>), or it is
  a map from keys to strings. Its capacity is not modelled.
\<close>

datatype local_storage = Blocked | Area "string \<rightharpoonup> string"

definition PREFS_KEY :: string where
  "PREFS_KEY = ''shell_a11y_prefs''"

definition getItem :: "local_storage \<Rightarrow> string \<Rightarrow> js_error + string option" where
  "getItem ls k = (case ls of Blocked \<Rightarrow> Inl SecurityError | Area m \<Rightarrow> Inr (m k))"

definition setItem :: "local_storage \<Rightarrow> string \<Rightarrow> string \<Rightarrow> js_error + local_storage" where
  "setItem ls k v =
     (case ls of Blocked \<Rightarrow> Inl SecurityError | Area m \<Rightarrow> Inr (Area (m(k \<mapsto> v))))"

text \<open>JavaScript truthiness of a parsed value, and of a property read that may be \<open>undefined\<close>.\<close>

fun truthy :: "json \<Rightarrow> bool" where
  "truthy JNull = False"
| "truthy (JBool b) = b"
| "truthy (JNum n) = (n \<noteq> Finite 0)"
| "truthy (JStr s) = (s \<noteq> [])"
| "truthy (JArr xs) = True"
| "truthy (JObj fs) = True"

text \<open>
  \<open>JSON.parse(localStorage.getItem(PREFS_KEY))\<close>: \<open>getItem\<close> gives \<open>null\<close> for a key that is
  not stored, which \<open>JSON.parse\<close> reads as the text \<open>null\<close> and so returns \<open>null\<close>.
\<close>

definition parse_item :: "js_runtime \<Rightarrow> string option \<Rightarrow> js_error + json" where
  "parse_item rt item =
     (case item of
        None \<Rightarrow> Inr JNull
      | Some s \<Rightarrow> (case JSON_parse rt s of None \<Rightarrow> Inl SyntaxError | Some v \<Rightarrow> Inr v))"

text \<open>The body of the \<open>try\<close> block of \<open>loadPrefs\<close>, and \<open>loadPrefs\<close> with its \<open>catch\<close>.\<close>

definition loadPrefs_try :: "js_runtime \<Rightarrow> local_storage \<Rightarrow> js_error + json" where
  "loadPrefs_try rt ls =
     (case getItem ls PREFS_KEY of
        Inl e \<Rightarrow> Inl e
      | Inr item \<Rightarrow>
          (case parse_item rt item of
             Inl e \<Rightarrow> Inl e
           | Inr v \<Rightarrow> Inr (if truthy v then v else JObj [])))"

definition loadPrefs :: "js_runtime \<Rightarrow> local_storage \<Rightarrow> js_error + json" where
  "loadPrefs rt ls =
     (case loadPrefs_try rt ls of Inl e \<Rightarrow> Inr (JObj []) | Inr v \<Rightarrow> Inr v)"

definition savePrefs :: "js_runtime \<Rightarrow> json \<Rightarrow> local_storage \<Rightarrow> js_error + local_storage" where
  "savePrefs rt prefs ls = setItem ls PREFS_KEY (JSON_stringify rt prefs)"

text \<open>
  Reading and writing the properties \<open>textScale\<close> and \<open>highContrast\<close>, names that no
  prototype of a parsed value defines. A read gives \<open>None\<close> for \<open>undefined\<close> and throws on
  \<open>null\<close>. The script is a module, hence strict: a write throws on a primitive. A write
  to an array adds a named property, which \<open>JSON.stringify\<close> leaves out, and the written
  value is only ever stringified, so the array stands for it.
\<close>

fun get_prop :: "json \<Rightarrow> string \<Rightarrow> js_error + json option" where
  "get_prop JNull name = Inl TypeError"
| "get_prop (JObj fs) name = Inr (map_of fs name)"
| "get_prop v name = Inr None"

fun set_prop :: "json \<Rightarrow> string \<Rightarrow> json \<Rightarrow> js_error + json" where
  "set_prop (JObj fs) name x = Inr (JObj (AList.update name x fs))"
| "set_prop (JArr xs) name x = Inr (JArr xs)"
| "set_prop v name x = Inl TypeError"

text \<open>The document root: its attributes and its class list, an ordered set of tokens.\<close>

record root_element =
  attributes :: "string \<rightharpoonup> string"
  classList :: "string list"

definition setAttribute :: "string \<Rightarrow> string \<Rightarrow> root_element \<Rightarrow> root_element" where
  "setAttribute name v r = r\<lparr>attributes := (attributes r)(name \<mapsto> v)\<rparr>"

definition removeAttribute :: "string \<Rightarrow> root_element \<Rightarrow> root_element" where
  "removeAttribute name r = r\<lparr>attributes := (attributes r)(name := None)\<rparr>"

definition classList_add :: "string \<Rightarrow> root_element \<Rightarrow> root_element" where
  "classList_add c r =
     (if c \<in> set (classList r) then r else r\<lparr>classList := classList r @ [c]\<rparr>)"

definition classList_remove :: "string \<Rightarrow> root_element \<Rightarrow> root_element" where
  "classList_remove c r = r\<lparr>classList := removeAll c (classList r)\<rparr>"

text \<open>
  The first statement of \<open>applyPrefs\<close> after the load. The value is converted to a string
  before the attribute is set, so a conversion that throws leaves the root as it was.
\<close>

definition apply_textScale ::
  "js_runtime \<Rightarrow> json option \<Rightarrow> root_element \<Rightarrow> js_error + root_element" where
  "apply_textScale rt textScale r =
     (case textScale of
        None \<Rightarrow> Inr (removeAttribute ''data-text-scale'' r)
      | Some v \<Rightarrow>
          if truthy v \<and> v \<noteq> JStr ''default''
          then (case ToString rt v of
                  Inl e \<Rightarrow> Inl e
                | Inr s \<Rightarrow> Inr (setAttribute ''data-text-scale'' s r))
          else Inr (removeAttribute ''data-text-scale'' r))"

definition apply_highContrast :: "json option \<Rightarrow> root_element \<Rightarrow> root_element" where
  "apply_highContrast highContrast r =
     (case highContrast of
        None \<Rightarrow> classList_remove ''high-contrast'' r
      | Some v \<Rightarrow>
          if truthy v then classList_add ''high-contrast'' r
          else classList_remove ''high-contrast'' r)"

definition applyPrefs ::
  "js_runtime \<Rightarrow> local_storage \<Rightarrow> root_element \<Rightarrow> root_element completion" where
  "applyPrefs rt ls r =
     (case loadPrefs rt ls of
        Inl e \<Rightarrow> Throws e r
      | Inr prefs \<Rightarrow>
          (case get_prop prefs ''textScale'' of
             Inl e \<Rightarrow> Throws e r
           | Inr textScale \<Rightarrow>
               (case apply_textScale rt textScale r of
                  Inl e \<Rightarrow> Throws e r
                | Inr r1 \<Rightarrow>
                    (case get_prop prefs ''highContrast'' of
                       Inl e \<Rightarrow> Throws e r1
                     | Inr highContrast \<Rightarrow> Returns (apply_highContrast highContrast r1)))))"

text \<open>
  The \<open>change\<close> listeners of the two preference controls: load the record, assign one
  property, save, apply. The state is the storage and the document root; a listener
  that throws in \<open>applyPrefs\<close> has saved already.
\<close>

definition change_pref ::
  "js_runtime \<Rightarrow> string \<Rightarrow> json \<Rightarrow> local_storage \<times> root_element \<Rightarrow>
   (local_storage \<times> root_element) completion" where
  "change_pref rt name x page =
     (case loadPrefs rt (fst page) of
        Inl e \<Rightarrow> Throws e page
      | Inr p \<Rightarrow>
          (case set_prop p name x of
             Inl e \<Rightarrow> Throws e page
           | Inr p1 \<Rightarrow>
               (case savePrefs rt p1 (fst page) of
                  Inl e \<Rightarrow> Throws e page
                | Inr ls1 \<Rightarrow>
                    (case applyPrefs rt ls1 (snd page) of
                       Throws e r1 \<Rightarrow> Throws e (ls1, r1)
                     | Returns r1 \<Rightarrow> Returns (ls1, r1)))))"

definition textScale_changed ::
  "js_runtime \<Rightarrow> string \<Rightarrow> local_storage \<times> root_element \<Rightarrow>
   (local_storage \<times> root_element) completion" where
  "textScale_changed rt selected page = change_pref rt ''textScale'' (JStr selected) page"

definition highContrast_changed ::
  "js_runtime \<Rightarrow> bool \<Rightarrow> local_storage \<times> root_element \<Rightarrow>
   (local_storage \<times> root_element) completion" where
  "highContrast_changed rt checked page = change_pref rt ''highContrast'' (JBool checked) page"

section \<open>Notions used in the statements\<close>

text \<open>A keydown of one key with no modifier held.\<close>

definition plain_key :: "string \<Rightarrow> keyboard_event" where
  "plain_key k = \<lparr>key = k, ctrlKey = False, metaKey = False, altKey = False, shiftKey = False\<rparr>"

text \<open>
  \<open>keys.split(' ')\<close>, as the shortcuts dialog uses it to list the tokens of a sequence, and
  the first token of a shortcut that has exactly two.
\<close>

fun split_space :: "string \<Rightarrow> string list" where
  "split_space [] = [[]]"
| "split_space (c # cs) =
     (if c = CHR '' '' then [] # split_space cs
      else (case split_space cs of [] \<Rightarrow> [[c]] | t # ts \<Rightarrow> (c # t) # ts))"

definition two_token_first :: "shortcut \<Rightarrow> string option" where
  "two_token_first s = (case split_space (keys s) of [a, b] \<Rightarrow> Some a | _ \<Rightarrow> None)"

definition pending_valid :: "matcher \<Rightarrow> bool" where
  "pending_valid st =
     (case pendingKey st of
        None \<Rightarrow> True
      | Some p \<Rightarrow> Some p \<in> set (map two_token_first SHORTCUTS))"

text \<open>The codec gives a value back: parsing the text written for it yields the value.\<close>

definition round_trips :: "js_runtime \<Rightarrow> json \<Rightarrow> bool" where
  "round_trips rt v = (JSON_parse rt (JSON_stringify rt v) = Some v)"

text \<open>
  A small runtime for examples. Its codec knows the JSON texts of \<open>sample_texts\<close> and
  rejects every other text; a value outside the table is written as the empty text. It
  formats the numbers of the table only.
\<close>

definition sample_texts :: "(string \<times> json) list" where
  \<open>sample_texts =
     [(''null'', JNull),
      (''false'', JBool False),
      (''0'', JNum (Finite 0)),
      (''""'', JStr []),
      (''5'', JNum (Finite 5)),
      (''[]'', JArr []),
      (''{}'', JObj []),
      (''{"textScale":"large"}'', JObj [(''textScale'', JStr ''large'')]),
      (''{"textScale":"large","highContrast":true}'',
         JObj [(''textScale'', JStr ''large''), (''highContrast'', JBool True)]),
      (''{"textScale":{"toString":0}}'',
         JObj [(''textScale'', JObj [(''toString'', JNum (Finite 0))])]),
      (''{"textScale":{"toString":0},"highContrast":true}'',
         JObj [(''textScale'', JObj [(''toString'', JNum (Finite 0))]),
               (''highContrast'', JBool True)])]\<close>

definition sample_runtime :: js_runtime where
  "sample_runtime =
     \<lparr>JSON_parse = map_of sample_texts,
      JSON_stringify = (\<lambda>v. case find (\<lambda>p. snd p = v) sample_texts of
                               None \<Rightarrow> [] | Some p \<Rightarrow> fst p),
      NumberToString = (\<lambda>n. if n = Finite 5 then ''5'' else ''0'')\<rparr>"

section \<open>Facts about the registry\<close>

lemma find_SHORTCUTS:
  "find (\<lambda>s. keys s = k) SHORTCUTS =
     (if k = ''g h''
      then Some \<lparr>keys = ''g h'', label = ''Go to Home'', action = NavigateTo ''home''\<rparr>
      else if k = ''g e''
      then Some \<lparr>keys = ''g e'', label = ''Go to Example Tool'',
                  action = NavigateTo ''example-tool''\<rparr>
      else if k = ''?''
      then Some \<lparr>keys = ''?'', label = ''Show keyboard shortcuts'',
                  action = ToggleShortcutsModal\<rparr>
      else None)"
  by (simp add: SHORTCUTS_def)

lemma couldBePrefix_iff:
  "list_ex (\<lambda>s. prefix (k @ '' '') (keys s)) SHORTCUTS = (k = ''g'')"
  by (cases k) (auto simp: SHORTCUTS_def prefix_Cons append_eq_Cons_conv)

lemma find_in_set: "find P xs = Some x \<Longrightarrow> x \<in> set xs"
  by (induction xs) (auto split: if_splits)

lemma navigateTo_home: "navigateTo site_root ''home'' = Some site_root"
  by (simp add: navigateTo_def NAV_ITEMS_def resolveHref_def)

section \<open>The navigation resolver\<close>

text \<open>
  C4. \<open>resolveHref\<close> of the path \<open>/\<close> is the site root itself. For every other path the
  result is the site root followed by the path without one leading slash (a path that
  starts with no slash is appended as it is); \<open>/example-tool/\<close> gives the root followed
  by \<open>example-tool/\<close>.
\<close>

theorem resolveHref_root_and_paths:
  "resolveHref site_root ''/'' = site_root \<and>
   (h \<noteq> ''/'' \<longrightarrow>
      resolveHref site_root h = site_root @ (if take 1 h = ''/'' then drop 1 h else h)) \<and>
   resolveHref site_root ''/example-tool/'' = site_root @ ''example-tool/''"
  by (cases h) (simp_all add: resolveHref_def)

theorem resolveHref_root_and_paths_witness:
  "''//a/b'' \<noteq> ''/'' \<and>
   resolveHref ''https://example.org/repo/'' ''/'' = ''https://example.org/repo/'' \<and>
   resolveHref ''https://example.org/repo/'' ''//a/b'' = ''https://example.org/repo//a/b''"
  using resolveHref_root_and_paths [of "''https://example.org/repo/''" "''//a/b''"] by simp

section \<open>The sequence matcher\<close>

subsection \<open>The listener, branch by branch\<close>

lemma couldBePrefix_g: "list_ex (\<lambda>s. prefix ''g '' (keys s)) SHORTCUTS"
  by (simp add: SHORTCUTS_def)

lemma single_block_eq:
  "single_block st k =
     (case find (\<lambda>s. keys s = k) SHORTCUTS of
        Some s \<Rightarrow> run_shortcut st s
      | None \<Rightarrow>
          if k = ''g''
          then unhandled (st\<lparr>pendingKey := Some k,
                 timers := timers st @ [(nextHandle st, clock st + 800)],
                 nextHandle := Suc (nextHandle st),
                 pendingTimer := Some (nextHandle st)\<rparr>)
          else unhandled st)"
  by (cases "k = ''g''")
     (simp_all add: single_block_def couldBePrefix_iff couldBePrefix_g setTimeout_def
        split: option.splits)

lemma keydown_g_idle:
  assumes "pendingKey st = None" and "toLowerCase (key e) = ''g''"
    and "\<not> isInputFocused a" and "\<not> ctrlKey e" and "\<not> metaKey e" and "\<not> altKey e"
  shows "keydown st e a =
           unhandled (st\<lparr>pendingKey := Some ''g'',
             timers := timers st @ [(nextHandle st, clock st + 800)],
             nextHandle := Suc (nextHandle st),
             pendingTimer := Some (nextHandle st)\<rparr>)"
  using assms by (simp add: keydown_def pending_block_def single_block_eq find_SHORTCUTS)

lemma keydown_h_idle:
  assumes "pendingKey st = None" and "toLowerCase (key e) = ''h''"
    and "\<not> isInputFocused a" and "\<not> ctrlKey e" and "\<not> metaKey e" and "\<not> altKey e"
  shows "keydown st e a = unhandled st"
  using assms by (simp add: keydown_def pending_block_def single_block_eq find_SHORTCUTS)

lemma keydown_h_pending_g:
  assumes "pendingKey st = Some ''g''" and "toLowerCase (key e) = ''h''"
    and "\<not> isInputFocused a" and "\<not> ctrlKey e" and "\<not> metaKey e" and "\<not> altKey e"
  shows "keydown st e a =
           \<lparr>after = (clearTimeout (pendingTimer st) st)\<lparr>pendingKey := None\<rparr>,
            dispatched = [NavigateTo ''home''], defaultPrevented = True\<rparr>"
  using assms by (simp add: keydown_def pending_block_def find_SHORTCUTS run_shortcut_def)

subsection \<open>The pending token along a run\<close>

lemma pending_valid_iff:
  "pending_valid st = (pendingKey st = None \<or> pendingKey st = Some ''g'')"
  by (auto simp: pending_valid_def SHORTCUTS_def two_token_first_def split: option.splits)

lemma keydown_pending_valid:
  assumes "pending_valid st"
  shows "pending_valid (after (keydown st e a))"
  using assms
  by (auto simp: pending_valid_iff keydown_def pending_block_def single_block_eq unhandled_def
        run_shortcut_def clearTimeout_def Let_def split: option.splits)

lemma elapse_pending_valid: "pending_valid st \<Longrightarrow> pending_valid (elapse d st)"
  by (auto simp: pending_valid_iff elapse_def Let_def)

lemma step_pending_valid: "pending_valid st \<Longrightarrow> pending_valid (fst (step (st, acts) i))"
  by (cases i) (simp_all add: keydown_pending_valid elapse_pending_valid Let_def)

lemma foldl_step_pending_valid:
  "pending_valid (fst s) \<Longrightarrow> pending_valid (fst (foldl step s ins))"
proof (induction ins arbitrary: s)
  case Nil
  then show ?case by simp
next
  case (Cons i ins)
  obtain st acts where s: "s = (st, acts)" by (cases s)
  have "pending_valid (fst (step s i))"
    using Cons.prems by (simp add: s step_pending_valid)
  then show ?case using Cons.IH by simp
qed

subsection \<open>Events the listener leaves alone\<close>

text \<open>
  C1, as the listener has it. A keydown with Ctrl, Meta or Alt held, or with the focus on
  an \<open>input\<close>, \<open>textarea\<close> or \<open>select\<close> element (the tag name compared without regard to
  case) or on an editable element, dispatches no action, does not prevent the default
  and leaves the pending key, the pending timer and the scheduled timeouts as they were.
\<close>

theorem keydown_non_qualifying:
  assumes "ctrlKey e \<or> metaKey e \<or> altKey e \<or>
           (\<exists>el. activeElement = Some el \<and>
                 (toLowerCase (tagName el) = ''input'' \<or>
                  toLowerCase (tagName el) = ''textarea'' \<or>
                  toLowerCase (tagName el) = ''select'' \<or> isContentEditable el))"
  shows "dispatched (keydown st e activeElement) = [] \<and>
         \<not> defaultPrevented (keydown st e activeElement) \<and>
         after (keydown st e activeElement) = st"
  using assms by (auto simp: keydown_def unhandled_def isInputFocused_def Let_def)

theorem keydown_non_qualifying_witness:
  "isContentEditable \<lparr>tagName = ''DIV'', isContentEditable = True\<rparr> \<and>
   dispatched
     (keydown
        \<lparr>pendingKey = Some ''g'', pendingTimer = Some 1, timers = [(1, 800)],
           nextHandle = 2, clock = 0\<rparr>
        (plain_key ''h'') (Some \<lparr>tagName = ''DIV'', isContentEditable = True\<rparr>)) = [] \<and>
   \<not> defaultPrevented
     (keydown
        \<lparr>pendingKey = Some ''g'', pendingTimer = Some 1, timers = [(1, 800)],
           nextHandle = 2, clock = 0\<rparr>
        (plain_key ''h'') (Some \<lparr>tagName = ''DIV'', isContentEditable = True\<rparr>)) \<and>
   after
     (keydown
        \<lparr>pendingKey = Some ''g'', pendingTimer = Some 1, timers = [(1, 800)],
           nextHandle = 2, clock = 0\<rparr>
        (plain_key ''h'') (Some \<lparr>tagName = ''DIV'', isContentEditable = True\<rparr>)) =
     \<lparr>pendingKey = Some ''g'', pendingTimer = Some 1, timers = [(1, 800)],
        nextHandle = 2, clock = 0\<rparr>"
  using keydown_non_qualifying
    [of "plain_key ''h''" "Some \<lparr>tagName = ''DIV'', isContentEditable = True\<rparr>"
        "\<lparr>pendingKey = Some ''g'', pendingTimer = Some 1, timers = [(1, 800)],
           nextHandle = 2, clock = 0\<rparr>"]
  by simp

text \<open>
  C1, as stated, fails for the Shift modifier, which the listener does not test: a
  keydown of \<open>?\<close> with Shift held and no text control focused dispatches the shortcuts
  dialog action and prevents the default.
\<close>

theorem shift_held_counterexample:
  "shiftKey \<lparr>key = ''?'', ctrlKey = False, metaKey = False, altKey = False, shiftKey = True\<rparr> \<and>
   dispatched
     (keydown initial
        \<lparr>key = ''?'', ctrlKey = False, metaKey = False, altKey = False, shiftKey = True\<rparr>
        None) = [ToggleShortcutsModal] \<and>
   defaultPrevented
     (keydown initial
        \<lparr>key = ''?'', ctrlKey = False, metaKey = False, altKey = False, shiftKey = True\<rparr>
        None)"
  by (simp add: keydown_def initial_def isInputFocused_def pending_block_def single_block_def
      find_SHORTCUTS run_shortcut_def toLowerCase_def lower_char_def)

subsection \<open>A combo that fails\<close>

text \<open>
  C2, as the listener has it. When a key arrives in the pending state and the combo is
  not registered, the listener clears the timeout and the pending key and then treats
  the new key exactly as it would in the idle state: the single-token lookup, then the
  prefix test. So a second key \<open>g\<close> starts a new pending state, with nothing dispatched
  and the default not prevented.
\<close>

theorem failed_combo_falls_through:
  assumes "pendingKey st = Some p" and "p \<noteq> []"
    and "\<not> isInputFocused a" and "\<not> ctrlKey e" and "\<not> metaKey e" and "\<not> altKey e"
    and "find (\<lambda>s. keys s = p @ '' '' @ toLowerCase (key e)) SHORTCUTS = None"
  shows "keydown st e a =
           keydown ((clearTimeout (pendingTimer st) st)\<lparr>pendingKey := None\<rparr>) e a \<and>
         (toLowerCase (key e) = ''g'' \<longrightarrow>
            pendingKey (after (keydown st e a)) = Some ''g'' \<and>
            dispatched (keydown st e a) = [] \<and> \<not> defaultPrevented (keydown st e a))"
  using assms
  by (simp add: keydown_def pending_block_def single_block_eq find_SHORTCUTS unhandled_def)

theorem failed_combo_falls_through_witness:
  "pendingKey
     \<lparr>pendingKey = Some ''g'', pendingTimer = Some 1, timers = [(1, 800)],
        nextHandle = 2, clock = 0\<rparr> = Some ''g'' \<and>
   find (\<lambda>s. keys s = ''g g'') SHORTCUTS = None \<and>
   pendingKey
     (after
        (keydown
           \<lparr>pendingKey = Some ''g'', pendingTimer = Some 1, timers = [(1, 800)],
              nextHandle = 2, clock = 0\<rparr>
           (plain_key ''g'') None)) = Some ''g'' \<and>
   dispatched
     (keydown
        \<lparr>pendingKey = Some ''g'', pendingTimer = Some 1, timers = [(1, 800)],
           nextHandle = 2, clock = 0\<rparr>
        (plain_key ''g'') None) = []"
proof -
  let ?st = "\<lparr>pendingKey = Some ''g'', pendingTimer = Some 1, timers = [(1, 800)],
                nextHandle = 2, clock = 0\<rparr>"
  have lower: "toLowerCase (key (plain_key ''g'')) = ''g''"
    by (simp add: plain_key_def toLowerCase_def lower_char_def)
  have h1: "pendingKey ?st = Some ''g''" by simp
  have h2: "''g'' \<noteq> []" by simp
  have h3: "\<not> isInputFocused None" by (simp add: isInputFocused_def)
  have h4: "\<not> ctrlKey (plain_key ''g'')" and h5: "\<not> metaKey (plain_key ''g'')"
    and h6: "\<not> altKey (plain_key ''g'')"
    by (simp_all add: plain_key_def)
  have h7: "find (\<lambda>s. keys s = ''g'' @ '' '' @ toLowerCase (key (plain_key ''g''))) SHORTCUTS
              = None"
    by (simp add: lower find_SHORTCUTS)
  from failed_combo_falls_through [OF h1 h2 h3 h4 h5 h6 h7, THEN conjunct2] lower
  show ?thesis by (simp add: find_SHORTCUTS)
qed

text \<open>
  C2, as stated, fails: after \<open>g\<close> the matcher is pending; a second \<open>g\<close> makes the combo
  \<open>g g\<close>, which is not registered, and the listener goes on to find \<open>g\<close> a prefix of a
  registered sequence and starts a new pending state with a fresh timeout.
\<close>

theorem failed_combo_counterexample:
  "pendingKey (after (keydown initial (plain_key ''g'') None)) = Some ''g'' \<and>
   ''g g'' \<notin> set (map keys SHORTCUTS) \<and>
   after
     (keydown (after (keydown initial (plain_key ''g'') None)) (plain_key ''g'') None) =
     \<lparr>pendingKey = Some ''g'', pendingTimer = Some 2, timers = [(2, 800)],
        nextHandle = 3, clock = 0\<rparr>"
  by (simp add: keydown_def initial_def isInputFocused_def pending_block_def single_block_def
      plain_key_def find_SHORTCUTS couldBePrefix_g run_shortcut_def unhandled_def
      setTimeout_def clearTimeout_def toLowerCase_def lower_char_def SHORTCUTS_def)

subsection \<open>The sequence g h\<close>

text \<open>
  C3. Start idle, with no timeout scheduled. A keydown of \<open>g\<close> and then, less than 800
  milliseconds later, a keydown of \<open>h\<close> (neither with Ctrl, Meta or Alt, nor in a text
  control) dispatches the action of the registered sequence \<open>g h\<close>, going to Home, once
  and nothing else. When more than 800 milliseconds pass between the two, nothing is
  dispatched and the matcher ends idle: \<open>h\<close> alone is no registered sequence.
\<close>

theorem g_then_h:
  assumes idle: "pendingKey st = None" "timers st = []"
    and g: "toLowerCase (key eg) = ''g''" "\<not> isInputFocused ag"
           "\<not> ctrlKey eg" "\<not> metaKey eg" "\<not> altKey eg"
    and h: "toLowerCase (key eh) = ''h''" "\<not> isInputFocused ah"
           "\<not> ctrlKey eh" "\<not> metaKey eh" "\<not> altKey eh"
  shows "(d < 800 \<longrightarrow>
            snd (run st [KeyDown eg ag, Elapse d, KeyDown eh ah]) = [NavigateTo ''home''] \<and>
            pendingKey (fst (run st [KeyDown eg ag, Elapse d, KeyDown eh ah])) = None) \<and>
         (800 < d \<longrightarrow>
            snd (run st [KeyDown eg ag, Elapse d, KeyDown eh ah]) = [] \<and>
            pendingKey (fst (run st [KeyDown eg ag, Elapse d, KeyDown eh ah])) = None \<and>
            find (\<lambda>s. keys s = ''h'') SHORTCUTS = None) \<and>
         map action (filter (\<lambda>s. keys s = ''g h'') SHORTCUTS) = [NavigateTo ''home''] \<and>
         navigateTo site_root ''home'' = Some site_root"
proof -
  let ?st1 = "st\<lparr>pendingKey := Some ''g'',
                 timers := timers st @ [(nextHandle st, clock st + 800)],
                 nextHandle := Suc (nextHandle st),
                 pendingTimer := Some (nextHandle st)\<rparr>"
  let ?ins = "[KeyDown eg ag, Elapse d, KeyDown eh ah]"
  have k1: "keydown st eg ag = unhandled ?st1"
    using idle(1) g by (rule keydown_g_idle)
  have early: "snd (run st ?ins) = [NavigateTo ''home''] \<and> pendingKey (fst (run st ?ins)) = None"
    if "d < 800"
  proof -
    have e: "pendingKey (elapse d ?st1) = Some ''g''"
      using that idle by (simp add: elapse_def Let_def)
    show ?thesis
      using keydown_h_pending_g [OF e h]
      by (simp add: run_def k1 unhandled_def Let_def)
  qed
  have late: "snd (run st ?ins) = [] \<and> pendingKey (fst (run st ?ins)) = None"
    if "800 < d"
  proof -
    have e: "pendingKey (elapse d ?st1) = None"
      using that idle by (simp add: elapse_def Let_def)
    show ?thesis
      using keydown_h_idle [OF e h] e
      by (simp add: run_def k1 unhandled_def Let_def)
  qed
  have reg: "map action (filter (\<lambda>s. keys s = ''g h'') SHORTCUTS) = [NavigateTo ''home'']"
    by (simp add: SHORTCUTS_def)
  show ?thesis using early late reg by (simp add: find_SHORTCUTS navigateTo_home)
qed

theorem g_then_h_witness:
  "snd (run initial [KeyDown (plain_key ''g'') None, Elapse 500, KeyDown (plain_key ''H'') None])
     = [NavigateTo ''home''] \<and>
   snd (run initial [KeyDown (plain_key ''g'') None, Elapse 900, KeyDown (plain_key ''H'') None])
     = [] \<and>
   pendingKey
     (fst (run initial [KeyDown (plain_key ''g'') None, Elapse 900, KeyDown (plain_key ''H'') None]))
     = None"
proof -
  have i: "pendingKey initial = None" "timers initial = []"
    by (simp_all add: initial_def)
  have g: "toLowerCase (key (plain_key ''g'')) = ''g''" "\<not> isInputFocused None"
    "\<not> ctrlKey (plain_key ''g'')" "\<not> metaKey (plain_key ''g'')" "\<not> altKey (plain_key ''g'')"
    by (simp_all add: plain_key_def toLowerCase_def lower_char_def isInputFocused_def)
  have h: "toLowerCase (key (plain_key ''H'')) = ''h''" "\<not> isInputFocused None"
    "\<not> ctrlKey (plain_key ''H'')" "\<not> metaKey (plain_key ''H'')" "\<not> altKey (plain_key ''H'')"
    by (simp_all add: plain_key_def toLowerCase_def lower_char_def isInputFocused_def)
  show ?thesis
    using g_then_h [OF i g h, of 500] g_then_h [OF i g h, of 900] by simp
qed

subsection \<open>One action at most\<close>

text \<open>
  C8. One run of the keydown listener dispatches at most one action, and only the action
  of a registered shortcut. It dispatches none when neither the key alone nor the pending
  key followed by the key is a registered sequence.
\<close>

theorem keydown_at_most_one_action:
  "length (dispatched (keydown st e a)) \<le> 1 \<and>
   set (dispatched (keydown st e a)) \<subseteq> action ` set SHORTCUTS \<and>
   (find (\<lambda>s. keys s = toLowerCase (key e)) SHORTCUTS = None \<and>
    (\<forall>p. pendingKey st = Some p \<longrightarrow>
         find (\<lambda>s. keys s = p @ '' '' @ toLowerCase (key e)) SHORTCUTS = None)
    \<longrightarrow> dispatched (keydown st e a) = [])"
  by (auto simp: keydown_def single_block_def pending_block_def run_shortcut_def unhandled_def
        Let_def setTimeout_def split: option.splits dest: find_in_set)

theorem keydown_at_most_one_action_witness:
  "length
     (dispatched
        (keydown
           \<lparr>pendingKey = Some ''g'', pendingTimer = Some 1, timers = [(1, 800)],
              nextHandle = 2, clock = 0\<rparr>
           (plain_key ''?'') None)) \<le> 1 \<and>
   find (\<lambda>s. keys s = toLowerCase (key (plain_key ''x''))) SHORTCUTS = None \<and>
   find (\<lambda>s. keys s = ''g'' @ '' '' @ toLowerCase (key (plain_key ''x''))) SHORTCUTS = None \<and>
   dispatched
     (keydown
        \<lparr>pendingKey = Some ''g'', pendingTimer = Some 1, timers = [(1, 800)],
           nextHandle = 2, clock = 0\<rparr>
        (plain_key ''x'') None) = []"
  using
    keydown_at_most_one_action
      [of "\<lparr>pendingKey = Some ''g'', pendingTimer = Some 1, timers = [(1, 800)],
              nextHandle = 2, clock = 0\<rparr>" "plain_key ''?''" None]
    keydown_at_most_one_action
      [of "\<lparr>pendingKey = Some ''g'', pendingTimer = Some 1, timers = [(1, 800)],
              nextHandle = 2, clock = 0\<rparr>" "plain_key ''x''" None]
  by (simp add: find_SHORTCUTS plain_key_def toLowerCase_def lower_char_def)

subsection \<open>The pending token is a registered first token\<close>

text \<open>
  C9. In every state the page reaches from its start, by keydown events and by time
  passing in any order, the pending key is either absent or the first token of a
  registered shortcut of exactly two tokens: some registered sequence is that token, a
  space and a second token.
\<close>

theorem pending_token_is_registered_prefix:
  "pending_valid (fst (run initial ins)) \<and>
   (\<forall>p. pendingKey (fst (run initial ins)) = Some p \<longrightarrow>
        (\<exists>s \<in> set SHORTCUTS. \<exists>t.
            p \<noteq> [] \<and> t \<noteq> [] \<and> CHR '' '' \<notin> set p \<and> CHR '' '' \<notin> set t \<and>
            keys s = p @ '' '' @ t))"
proof -
  have v: "pending_valid (fst (run initial ins))"
    unfolding run_def
    by (rule foldl_step_pending_valid) (simp add: pending_valid_iff initial_def)
  have "\<exists>s \<in> set SHORTCUTS. \<exists>t.
            p \<noteq> [] \<and> t \<noteq> [] \<and> CHR '' '' \<notin> set p \<and> CHR '' '' \<notin> set t \<and>
            keys s = p @ '' '' @ t"
    if "pendingKey (fst (run initial ins)) = Some p" for p
  proof -
    have "p = ''g''" using v that by (simp add: pending_valid_iff)
    then show ?thesis by (simp add: SHORTCUTS_def)
  qed
  with v show ?thesis by blast
qed

theorem pending_token_is_registered_prefix_witness:
  "pending_valid (fst (run initial [KeyDown (plain_key ''g'') None])) \<and>
   pendingKey (fst (run initial [KeyDown (plain_key ''g'') None])) = Some ''g''"
  using pending_token_is_registered_prefix [of "[KeyDown (plain_key ''g'') None]"]
  by (simp add: run_def keydown_def isInputFocused_def plain_key_def pending_block_def
       initial_def single_block_eq find_SHORTCUTS toLowerCase_def lower_char_def unhandled_def)

section \<open>The preference store and applier\<close>

subsection \<open>What loadPrefs returns\<close>

lemma loadPrefs_cases:
  "loadPrefs rt ls =
     (case ls of
        Blocked \<Rightarrow> Inr (JObj [])
      | Area m \<Rightarrow>
          (case m PREFS_KEY of
             None \<Rightarrow> Inr (JObj [])
           | Some s \<Rightarrow>
               (case JSON_parse rt s of
                  None \<Rightarrow> Inr (JObj [])
                | Some v \<Rightarrow> Inr (if truthy v then v else JObj []))))"
  by (simp add: loadPrefs_def loadPrefs_try_def getItem_def parse_item_def
        split: local_storage.splits option.splits)

lemma loadPrefs_truthy: "\<exists>v. loadPrefs rt ls = Inr v \<and> truthy v"
  by (simp add: loadPrefs_cases split: local_storage.splits option.splits)

lemma get_prop_truthy: "truthy v \<Longrightarrow> \<exists>x. get_prop v name = Inr x"
  by (cases v) simp_all

lemma truthy_iff:
  "truthy v = (v \<noteq> JNull \<and> v \<noteq> JBool False \<and> v \<noteq> JNum (Finite 0) \<and> v \<noteq> JStr [])"
  by (cases v) auto

lemma load_after_save:
  assumes "round_trips rt v" and "truthy v"
  shows "savePrefs rt v (Area m) = Inr (Area (m(PREFS_KEY \<mapsto> JSON_stringify rt v))) \<and>
         loadPrefs rt (Area (m(PREFS_KEY \<mapsto> JSON_stringify rt v))) = Inr v"
  using assms by (simp add: savePrefs_def setItem_def loadPrefs_cases round_trips_def)

text \<open>
  C5. \<open>loadPrefs\<close> always returns a value, whatever the storage holds and whatever the
  codec does. When the storage refuses access, when nothing is stored under the key, or
  when the stored text does not parse, the value is the empty object, every property of
  which is undefined.
\<close>

theorem loadPrefs_never_throws:
  "(\<exists>v. loadPrefs rt ls = Inr v) \<and>
   (ls = Blocked \<or>
    (\<exists>m. ls = Area m \<and>
         (m PREFS_KEY = None \<or> (\<exists>s. m PREFS_KEY = Some s \<and> JSON_parse rt s = None)))
    \<longrightarrow> loadPrefs rt ls = Inr (JObj [])) \<and>
   get_prop (JObj []) name = Inr None"
  by (auto simp: loadPrefs_cases split: local_storage.splits option.splits)

theorem loadPrefs_never_throws_witness:
  \<open>JSON_parse sample_runtime ''{"textScale":'' = None \<and>
   loadPrefs sample_runtime (Area [PREFS_KEY \<mapsto> ''{"textScale":'']) = Inr (JObj []) \<and>
   loadPrefs sample_runtime (Area Map.empty) = Inr (JObj []) \<and>
   loadPrefs sample_runtime Blocked = Inr (JObj [])\<close>
  using loadPrefs_never_throws [of sample_runtime \<open>Area [PREFS_KEY \<mapsto> ''{"textScale":'']\<close>]
    loadPrefs_never_throws [of sample_runtime "Area Map.empty"]
    loadPrefs_never_throws [of sample_runtime Blocked]
  by (simp add: sample_runtime_def sample_texts_def)

text \<open>
  C10. When the stored text parses, \<open>loadPrefs\<close> puts the empty object in place of the
  parsed value exactly when that value is falsy, that is \<open>null\<close>, \<open>false\<close>, zero or the
  empty string. Every other parsed value, a non-zero number, a non-empty string or an
  array among them, is returned as it is.
\<close>

theorem loadPrefs_substitutes_for_falsy_only:
  assumes "m PREFS_KEY = Some s" and "JSON_parse rt s = Some v"
  shows "(v = JNull \<or> v = JBool False \<or> v = JNum (Finite 0) \<or> v = JStr []
            \<longrightarrow> loadPrefs rt (Area m) = Inr (JObj [])) \<and>
         (v \<noteq> JNull \<and> v \<noteq> JBool False \<and> v \<noteq> JNum (Finite 0) \<and> v \<noteq> JStr []
            \<longrightarrow> loadPrefs rt (Area m) = Inr v)"
  using assms by (auto simp: loadPrefs_cases truthy_iff)

theorem loadPrefs_substitutes_for_falsy_only_witness:
  \<open>loadPrefs sample_runtime (Area [PREFS_KEY \<mapsto> ''5'']) = Inr (JNum (Finite 5)) \<and>
   loadPrefs sample_runtime (Area [PREFS_KEY \<mapsto> ''[]'']) = Inr (JArr []) \<and>
   loadPrefs sample_runtime (Area [PREFS_KEY \<mapsto> ''0'']) = Inr (JObj []) \<and>
   loadPrefs sample_runtime (Area [PREFS_KEY \<mapsto> ''""'']) = Inr (JObj [])\<close>
proof -
  have p: \<open>JSON_parse sample_runtime ''5'' = Some (JNum (Finite 5))\<close>
    \<open>JSON_parse sample_runtime ''[]'' = Some (JArr [])\<close>
    \<open>JSON_parse sample_runtime ''0'' = Some (JNum (Finite 0))\<close>
    \<open>JSON_parse sample_runtime ''""'' = Some (JStr [])\<close>
    by (simp_all add: sample_runtime_def sample_texts_def)
  show ?thesis
    using
      loadPrefs_substitutes_for_falsy_only
        [where m = "[PREFS_KEY \<mapsto> ''5'']" and s = "''5''" and rt = sample_runtime,
         OF _ p(1)]
      loadPrefs_substitutes_for_falsy_only
        [where m = "[PREFS_KEY \<mapsto> ''[]'']" and s = "''[]''" and rt = sample_runtime,
         OF _ p(2)]
      loadPrefs_substitutes_for_falsy_only
        [where m = "[PREFS_KEY \<mapsto> ''0'']" and s = "''0''" and rt = sample_runtime,
         OF _ p(3)]
      loadPrefs_substitutes_for_falsy_only
        [where m = \<open>[PREFS_KEY \<mapsto> ''""'']\<close> and s = \<open>''""''\<close> and rt = sample_runtime,
         OF _ p(4)]
    by simp
qed

subsection \<open>Applying twice\<close>

lemma applyPrefs_shape:
  "\<exists>v ts hc.
      loadPrefs rt ls = Inr v \<and>
      get_prop v ''textScale'' = Inr ts \<and> get_prop v ''highContrast'' = Inr hc \<and>
      (\<forall>r. applyPrefs rt ls r =
             (case apply_textScale rt ts r of
                Inl e \<Rightarrow> Throws e r
              | Inr r1 \<Rightarrow> Returns (apply_highContrast hc r1)))"
proof -
  obtain v where v: "loadPrefs rt ls = Inr v" "truthy v"
    using loadPrefs_truthy by blast
  obtain ts where ts: "get_prop v ''textScale'' = Inr ts"
    using get_prop_truthy [OF v(2)] by blast
  obtain hc where hc: "get_prop v ''highContrast'' = Inr hc"
    using get_prop_truthy [OF v(2)] by blast
  have "applyPrefs rt ls r =
          (case apply_textScale rt ts r of
             Inl e \<Rightarrow> Throws e r
           | Inr r1 \<Rightarrow> Returns (apply_highContrast hc r1))" for r
    by (simp add: applyPrefs_def v ts hc split: sum.splits)
  with v(1) ts hc show ?thesis by blast
qed

lemma apply_textScale_returns:
  "apply_textScale rt ts r = Inr r1 \<Longrightarrow>
   apply_textScale rt ts (apply_highContrast hc r1) = Inr (apply_highContrast hc r1)"
  by (auto simp: apply_textScale_def apply_highContrast_def setAttribute_def
        removeAttribute_def classList_add_def classList_remove_def
        split: option.splits if_splits sum.splits)

lemma apply_highContrast_twice:
  "apply_highContrast hc (apply_highContrast hc r) = apply_highContrast hc r"
  by (simp add: apply_highContrast_def classList_add_def classList_remove_def
        split: option.splits)

lemma apply_textScale_converts:
  assumes "\<And>t. ts = Some t \<Longrightarrow> \<exists>s. ToString rt t = Inr s"
  shows "\<exists>r1. apply_textScale rt ts r = Inr r1"
proof (cases ts)
  case None
  then show ?thesis by (simp add: apply_textScale_def)
next
  case (Some t)
  then obtain s where "ToString rt t = Inr s" using assms by blast
  with Some show ?thesis by (simp add: apply_textScale_def)
qed

text \<open>
  C6. Run \<open>applyPrefs\<close> once, and run it again on the document root the first run left,
  with the storage untouched in between: the second run ends as the first did and
  leaves the same root, the same attributes and the same class list. This holds for
  every stored text, also for one whose \<open>textScale\<close> has no string conversion: then both
  runs throw and the root stays as it was before the first. Whenever the stored
  \<open>textScale\<close> is absent or converts to a string, \<open>applyPrefs\<close> returns.
\<close>

theorem applyPrefs_idempotent:
  "applyPrefs rt ls (state_of (applyPrefs rt ls r)) = applyPrefs rt ls r \<and>
   (\<forall>e r1. applyPrefs rt ls r = Throws e r1 \<longrightarrow> r1 = r) \<and>
   ((\<forall>v t. loadPrefs rt ls = Inr v \<and> get_prop v ''textScale'' = Inr (Some t)
            \<longrightarrow> (\<exists>s. ToString rt t = Inr s))
    \<longrightarrow> (\<exists>r1. applyPrefs rt ls r = Returns r1))"
proof -
  obtain v ts hc where load: "loadPrefs rt ls = Inr v"
    and ts: "get_prop v ''textScale'' = Inr ts"
    and shape: "\<And>r. applyPrefs rt ls r =
             (case apply_textScale rt ts r of
                Inl e \<Rightarrow> Throws e r
              | Inr r1 \<Rightarrow> Returns (apply_highContrast hc r1))"
    using applyPrefs_shape [of rt ls] by blast
  have twice: "applyPrefs rt ls (state_of (applyPrefs rt ls r)) = applyPrefs rt ls r"
  proof (cases "apply_textScale rt ts r")
    case (Inl e)
    then show ?thesis by (simp add: shape)
  next
    case (Inr r1)
    then show ?thesis
      by (simp add: shape apply_textScale_returns apply_highContrast_twice)
  qed
  have unchanged: "r1 = r" if "applyPrefs rt ls r = Throws e r1" for e r1
    using that by (simp add: shape split: sum.splits)
  have returns: "\<exists>r1. applyPrefs rt ls r = Returns r1"
    if "\<forall>v t. loadPrefs rt ls = Inr v \<and> get_prop v ''textScale'' = Inr (Some t)
            \<longrightarrow> (\<exists>s. ToString rt t = Inr s)"
  proof -
    have "\<exists>s. ToString rt t = Inr s" if "ts = Some t" for t
      using \<open>\<forall>v t. _\<close> load ts that by blast
    then obtain r1 where "apply_textScale rt ts r = Inr r1"
      using apply_textScale_converts by blast
    then show ?thesis by (simp add: shape)
  qed
  show ?thesis using twice unchanged returns by blast
qed

theorem applyPrefs_idempotent_witness:
  \<open>applyPrefs sample_runtime
      (Area [PREFS_KEY \<mapsto> ''{"textScale":"large","highContrast":true}''])
      \<lparr>attributes = Map.empty, classList = [''page'']\<rparr> =
     Returns \<lparr>attributes = [''data-text-scale'' \<mapsto> ''large''],
              classList = [''page'', ''high-contrast'']\<rparr> \<and>
   applyPrefs sample_runtime
      (Area [PREFS_KEY \<mapsto> ''{"textScale":"large","highContrast":true}''])
      \<lparr>attributes = [''data-text-scale'' \<mapsto> ''large''],
         classList = [''page'', ''high-contrast'']\<rparr> =
     Returns \<lparr>attributes = [''data-text-scale'' \<mapsto> ''large''],
              classList = [''page'', ''high-contrast'']\<rparr> \<and>
   applyPrefs sample_runtime
      (Area [PREFS_KEY \<mapsto> ''{"textScale":{"toString":0},"highContrast":true}''])
      \<lparr>attributes = Map.empty, classList = [''page'']\<rparr> =
     Throws TypeError \<lparr>attributes = Map.empty, classList = [''page'']\<rparr>\<close>
proof -
  let ?ls = \<open>Area [PREFS_KEY \<mapsto> ''{"textScale":"large","highContrast":true}'']\<close>
  let ?bad = \<open>Area [PREFS_KEY \<mapsto> ''{"textScale":{"toString":0},"highContrast":true}'']\<close>
  let ?r = \<open>\<lparr>attributes = Map.empty, classList = [''page'']\<rparr>\<close>
  have a: \<open>applyPrefs sample_runtime ?ls ?r =
     Returns \<lparr>attributes = [''data-text-scale'' \<mapsto> ''large''],
              classList = [''page'', ''high-contrast'']\<rparr>\<close>
    by (simp add: applyPrefs_def loadPrefs_cases sample_runtime_def sample_texts_def
          apply_highContrast_def apply_textScale_def setAttribute_def classList_add_def)
  have b: \<open>applyPrefs sample_runtime ?bad ?r = Throws TypeError ?r\<close>
    by (simp add: applyPrefs_def loadPrefs_cases sample_runtime_def sample_texts_def
          apply_textScale_def)
  show ?thesis
    using applyPrefs_idempotent [of sample_runtime ?ls ?r]
      applyPrefs_idempotent [of sample_runtime ?bad ?r]
    by (simp add: a b)
qed

subsection \<open>Saving and loading\<close>

text \<open>
  C7. With a codec that gives back the records written, and a storage that accepts
  writes: saving the record that has only \<open>textScale\<close>, set to \<open>large\<close>, and loading gives
  that record, whose \<open>textScale\<close> is \<open>large\<close> and whose \<open>highContrast\<close> is undefined. And
  after any record with a \<open>textScale\<close> was saved, the listener of the contrast control
  (load, assign \<open>highContrast\<close>, save, apply) leaves a stored record with the same
  \<open>textScale\<close> and the new \<open>highContrast\<close>, whether its last step, \<open>applyPrefs\<close>, returns
  or throws; the listener returns whenever that \<open>textScale\<close> converts to a string.
\<close>

theorem save_load_round_trip:
  assumes large: "round_trips rt (JObj [(''textScale'', JStr ''large'')])"
    and saved: "round_trips rt (JObj fs)" "map_of fs ''textScale'' = Some t"
    and changed: "round_trips rt (JObj (AList.update ''highContrast'' (JBool b) fs))"
  shows "(\<exists>ls1. savePrefs rt (JObj [(''textScale'', JStr ''large'')]) (Area m) = Inr ls1 \<and>
               loadPrefs rt ls1 = Inr (JObj [(''textScale'', JStr ''large'')])) \<and>
         get_prop (JObj [(''textScale'', JStr ''large'')]) ''textScale''
           = Inr (Some (JStr ''large'')) \<and>
         get_prop (JObj [(''textScale'', JStr ''large'')]) ''highContrast'' = Inr None \<and>
         (\<exists>ls1 p.
             savePrefs rt (JObj fs) (Area m) = Inr ls1 \<and>
             loadPrefs rt (fst (state_of (highContrast_changed rt b (ls1, r)))) = Inr p \<and>
             get_prop p ''textScale'' = Inr (Some t) \<and>
             get_prop p ''highContrast'' = Inr (Some (JBool b)) \<and>
             ((\<exists>s. ToString rt t = Inr s) \<longrightarrow>
                (\<exists>page. highContrast_changed rt b (ls1, r) = Returns page)))"
proof -
  let ?p1 = "JObj (AList.update ''highContrast'' (JBool b) fs)"
  let ?m1 = "m(PREFS_KEY \<mapsto> JSON_stringify rt (JObj fs))"
  let ?m2 = "m(PREFS_KEY \<mapsto> JSON_stringify rt ?p1)"
  let ?c = "highContrast_changed rt b (Area ?m1, r)"
  have first: "\<exists>ls1. savePrefs rt (JObj [(''textScale'', JStr ''large'')]) (Area m) = Inr ls1 \<and>
               loadPrefs rt ls1 = Inr (JObj [(''textScale'', JStr ''large'')])"
    using load_after_save [OF large] by simp
  have s1: "savePrefs rt (JObj fs) (Area m) = Inr (Area ?m1)"
    and l1: "loadPrefs rt (Area ?m1) = Inr (JObj fs)"
    using load_after_save [OF saved(1), of m] by simp_all
  have s2: "savePrefs rt ?p1 (Area ?m1) = Inr (Area ?m2)"
    and l2: "loadPrefs rt (Area ?m2) = Inr ?p1"
    using load_after_save [OF changed, of ?m1] by simp_all
  have props: "get_prop ?p1 ''textScale'' = Inr (Some t)"
    "get_prop ?p1 ''highContrast'' = Inr (Some (JBool b))"
    using saved(2) by (simp_all add: update_conv')
  have ch: "?c = (case applyPrefs rt (Area ?m2) r of
                    Throws e r1 \<Rightarrow> Throws e (Area ?m2, r1)
                  | Returns r1 \<Rightarrow> Returns (Area ?m2, r1))"
    by (simp add: highContrast_changed_def change_pref_def l1 s2)
  have stored: "fst (state_of ?c) = Area ?m2"
    by (simp add: ch split: completion.splits)
  have returns: "\<exists>page. ?c = Returns page" if conv: "\<exists>s. ToString rt t = Inr s"
  proof -
    obtain v ts hc where load: "loadPrefs rt (Area ?m2) = Inr v"
      and ts: "get_prop v ''textScale'' = Inr ts"
      and shape: "\<And>r. applyPrefs rt (Area ?m2) r =
             (case apply_textScale rt ts r of
                Inl e \<Rightarrow> Throws e r
              | Inr r1 \<Rightarrow> Returns (apply_highContrast hc r1))"
      using applyPrefs_shape [of rt "Area ?m2"] by blast
    have "v = ?p1" using load l2 by simp
    then have "ts = Some t" using ts props(1) by simp
    then have "\<exists>s. ToString rt t' = Inr s" if "ts = Some t'" for t'
      using that conv by simp
    then obtain r1 where "apply_textScale rt ts r = Inr r1"
      using apply_textScale_converts by blast
    then show ?thesis by (simp add: ch shape)
  qed
  have second: "\<exists>ls1 p.
             savePrefs rt (JObj fs) (Area m) = Inr ls1 \<and>
             loadPrefs rt (fst (state_of (highContrast_changed rt b (ls1, r)))) = Inr p \<and>
             get_prop p ''textScale'' = Inr (Some t) \<and>
             get_prop p ''highContrast'' = Inr (Some (JBool b)) \<and>
             ((\<exists>s. ToString rt t = Inr s) \<longrightarrow>
                (\<exists>page. highContrast_changed rt b (ls1, r) = Returns page))"
  proof (intro exI [of _ "Area ?m1"] exI [of _ ?p1] conjI impI)
    show "savePrefs rt (JObj fs) (Area m) = Inr (Area ?m1)" by (rule s1)
    show "loadPrefs rt (fst (state_of ?c)) = Inr ?p1" by (simp only: stored l2)
    show "get_prop ?p1 ''textScale'' = Inr (Some t)" by (rule props(1))
    show "get_prop ?p1 ''highContrast'' = Inr (Some (JBool b))" by (rule props(2))
    show "\<exists>page. ?c = Returns page" if "\<exists>s. ToString rt t = Inr s"
      using that by (rule returns)
  qed
  show ?thesis using first second by simp
qed

theorem save_load_round_trip_witness:
  \<open>savePrefs sample_runtime (JObj [(''textScale'', JStr ''large'')]) (Area Map.empty) =
     Inr (Area [PREFS_KEY \<mapsto> ''{"textScale":"large"}'']) \<and>
   loadPrefs sample_runtime (Area [PREFS_KEY \<mapsto> ''{"textScale":"large"}'']) =
     Inr (JObj [(''textScale'', JStr ''large'')]) \<and>
   highContrast_changed sample_runtime True
     (Area [PREFS_KEY \<mapsto> ''{"textScale":"large"}''],
      \<lparr>attributes = Map.empty, classList = []\<rparr>) =
     Returns (Area [PREFS_KEY \<mapsto> ''{"textScale":"large","highContrast":true}''],
              \<lparr>attributes = [''data-text-scale'' \<mapsto> ''large''],
                 classList = [''high-contrast'']\<rparr>) \<and>
   loadPrefs sample_runtime
     (Area [PREFS_KEY \<mapsto> ''{"textScale":"large","highContrast":true}'']) =
     Inr (JObj [(''textScale'', JStr ''large''), (''highContrast'', JBool True)]) \<and>
   highContrast_changed sample_runtime True
     (Area [PREFS_KEY \<mapsto> ''{"textScale":{"toString":0}}''],
      \<lparr>attributes = Map.empty, classList = []\<rparr>) =
     Throws TypeError
       (Area [PREFS_KEY \<mapsto> ''{"textScale":{"toString":0},"highContrast":true}''],
        \<lparr>attributes = Map.empty, classList = []\<rparr>)\<close>
proof -
  have a: "round_trips sample_runtime (JObj [(''textScale'', JStr ''large'')])"
    by (simp add: round_trips_def sample_runtime_def sample_texts_def)
  have b: "map_of [(''textScale'', JStr ''large'')] ''textScale'' = Some (JStr ''large'')"
    by simp
  have c: "round_trips sample_runtime
             (JObj (AList.update ''highContrast'' (JBool True)
                      [(''textScale'', JStr ''large'')]))"
    by (simp add: round_trips_def sample_runtime_def sample_texts_def)
  have a': "round_trips sample_runtime
              (JObj [(''textScale'', JObj [(''toString'', JNum (Finite 0))])])"
    by (simp add: round_trips_def sample_runtime_def sample_texts_def)
  have b': "map_of [(''textScale'', JObj [(''toString'', JNum (Finite 0))])] ''textScale''
              = Some (JObj [(''toString'', JNum (Finite 0))])"
    by simp
  have c': "round_trips sample_runtime
             (JObj (AList.update ''highContrast'' (JBool True)
                      [(''textScale'', JObj [(''toString'', JNum (Finite 0))])]))"
    by (simp add: round_trips_def sample_runtime_def sample_texts_def)
  show ?thesis
    using save_load_round_trip
      [OF a a b c, of Map.empty "\<lparr>attributes = Map.empty, classList = []\<rparr>"]
      save_load_round_trip
      [OF a a' b' c', of Map.empty "\<lparr>attributes = Map.empty, classList = []\<rparr>"]
    by (simp add: savePrefs_def setItem_def loadPrefs_cases highContrast_changed_def
          change_pref_def applyPrefs_def apply_highContrast_def apply_textScale_def
          setAttribute_def classList_add_def sample_runtime_def sample_texts_def)
qed

end
